theory Spec2Isabelle
  imports Complex_Main
begin

section \<open>The scene lifecycle controller of \<open>src/main.ts\<close>\<close>

text \<open>
  The program is one class, \<open>ThreeJSScene\<close>, over the rendering library three.js, its
  orbit-control add-on, the stats.js overlay and the browser (window, page, animation
  frames). The class is embedded as a record of its fields together with the part of the
  browser it touches; every method is a function from state to state, or to an error
  where the JavaScript would throw.

  JavaScript numbers are IEEE doubles. The rotation of an object, which the program
  itself advances by repeated addition, is held as doubles and added as doubles are.
  The other numbers are modelled as \<open>real\<close> with exact arithmetic; \<open>Infinity\<close> and
  \<open>NaN\<close> are not modelled (the quotient \<open>innerWidth / innerHeight\<close> of a window of
  height zero is outside the model). Handles of animation frames, colours and object
  references are natural numbers; the colours of the source are
  \<open>0x222222 = 2236962\<close>, \<open>0x404040 = 4210752\<close>, \<open>0xffffff = 16777215\<close>,
  \<open>0x00ff88 = 65416\<close> and \<open>0x666666 = 6710886\<close>.

  The libraries and the browser are not code of this repository. What the program needs
  of them is written down below, each piece with a remark that says where it comes from.
\<close>

subsection \<open>Doubles\<close>

text \<open>
  A finite double is \<open>m * 2 ^ e\<close> with a mantissa of exactly 53 bits, or zero:
  \<open>Double m e\<close> with \<open>2 ^ 52 \<le> \<bar>m\<bar> < 2 ^ 53\<close>, or \<open>Double 0 0\<close>. The exponent is not
  bounded here: overflow and subnormal numbers are not modelled, and neither is the
  sign of zero. \<open>round53\<close> rounds an exact \<open>m * 2 ^ e\<close> to the nearest double, a tie
  to the one with the even mantissa; the sum of two doubles is their exact sum, rounded.
\<close>

datatype double = Double int int

function bit_length :: "int \<Rightarrow> nat" where
  "bit_length m = (if m \<le> 0 then 0 else Suc (bit_length (m div 2)))"
  by pat_completeness auto
termination
  by (relation "measure nat") auto

declare bit_length.simps [simp del]

definition round53 :: "int \<Rightarrow> int \<Rightarrow> double" where
  "round53 m e =
     (if m = 0 then Double 0 0
      else
        let n = bit_length \<bar>m\<bar> in
        if n \<le> 53 then Double (m * 2 ^ (53 - n)) (e - int (53 - n))
        else
          let k = n - 53;
              q = \<bar>m\<bar> div 2 ^ k;
              r = \<bar>m\<bar> mod 2 ^ k;
              q' = (if 2 ^ k < 2 * r \<or> (2 * r = 2 ^ k \<and> odd q) then q + 1 else q)
          in if q' = 2 ^ 53 then Double (sgn m * 2 ^ 52) (e + int k + 1)
             else Double (sgn m * q') (e + int k))"

fun dadd :: "double \<Rightarrow> double \<Rightarrow> double" where
  "dadd (Double m1 e1) (Double m2 e2) =
     (let e = min e1 e2
      in round53 (m1 * 2 ^ nat (e1 - e) + m2 * 2 ^ nat (e2 - e)) e)"

text \<open>Negation and division by two are exact.\<close>

fun dneg :: "double \<Rightarrow> double" where
  "dneg (Double m e) = Double (- m) e"

fun dhalf :: "double \<Rightarrow> double" where
  "dhalf (Double m e) = (if m = 0 then Double 0 0 else Double m (e - 1))"

text \<open>The real number a double stands for.\<close>

fun dval :: "double \<Rightarrow> real" where
  "dval (Double m e) =
     (if 0 \<le> e then of_int m * 2 ^ nat e else of_int m / 2 ^ nat (- e))"

text \<open>
  The doubles the source names: the literal \<open>0\<close>, the literal \<open>0.01\<close>, which is the
  double \<open>0x3F847AE147AE147B\<close> nearest to 1/100, and \<open>Math.PI\<close>, which is
  \<open>0x400921FB54442D18\<close>.
\<close>

definition dzero :: double where
  "dzero = Double 0 0"

definition hundredth :: double where
  "hundredth = Double 5764607523034235 (- 59)"

definition Math_PI :: double where
  "Math_PI = Double 7074237752028440 (- 51)"

subsection \<open>Library objects\<close>

record vector3 =
  vx :: real
  vy :: real
  vz :: real

definition vec :: "real \<Rightarrow> real \<Rightarrow> real \<Rightarrow> vector3" where
  "vec a b c = \<lparr>vx = a, vy = b, vz = c\<rparr>"

text \<open>The rotation of an object: its three angles, in radians.\<close>

record euler =
  rot_x :: double
  rot_y :: double
  rot_z :: double

datatype geometry = BoxGeometry real real real | PlaneGeometry real real

datatype material = MeshLambertMaterial nat

datatype object_kind =
    AmbientLight nat real
  | DirectionalLight nat real
  | Mesh geometry material

text \<open>
  An object of the scene graph. A new object sits at the origin, unrotated, and neither
  casts nor receives shadows; the shadow map of a light is 512 by 512 until set
  (the defaults of three.js).
\<close>

record object3d =
  kind :: object_kind
  position :: vector3
  rotation :: euler
  castShadow :: bool
  receiveShadow :: bool
  shadow_mapSize :: "real \<times> real"

definition new_object :: "object_kind \<Rightarrow> object3d" where
  "new_object k =
     \<lparr>kind = k, position = vec 0 0 0,
      rotation = \<lparr>rot_x = dzero, rot_y = dzero, rot_z = dzero\<rparr>,
      castShadow = False, receiveShadow = False, shadow_mapSize = (512, 512)\<rparr>"

text \<open>
  \<open>new PerspectiveCamera(fov, aspect, near, far)\<close>. The projection matrix is a function
  of these four numbers; \<open>projection\<close> holds the four that the last
  \<open>updateProjectionMatrix()\<close> has committed. The constructor commits its arguments.
\<close>

record perspective_camera =
  fov :: real
  aspect :: real
  near :: real
  far :: real
  cam_position :: vector3
  projection :: "real \<times> real \<times> real \<times> real"

definition updateProjectionMatrix :: "perspective_camera \<Rightarrow> perspective_camera" where
  "updateProjectionMatrix c = c\<lparr>projection := (fov c, aspect c, near c, far c)\<rparr>"

definition PerspectiveCamera :: "real \<Rightarrow> real \<Rightarrow> real \<Rightarrow> real \<Rightarrow> perspective_camera" where
  "PerspectiveCamera f a n fr =
     updateProjectionMatrix
       \<lparr>fov = f, aspect = a, near = n, far = fr, cam_position = vec 0 0 0,
        projection = (0, 0, 0, 0)\<rparr>"

datatype shadow_map_type = BasicShadowMap | PCFShadowMap | PCFSoftShadowMap | VSMShadowMap

text \<open>
  Modelled from the spec: the rendering surface, which is code of three.js
  (\<open>WebGLRenderer\<close>) and not of \<open>src/\<close>. The spec gives it pixel dimensions and a
  device pixel ratio as attributes, has it sized to the viewport with
  device-pixel-ratio scaling, and has its output dimensions equal the size it is set to
  scaled by that ratio. So: the surface holds the size it was last set to and a pixel
  ratio; its output dimensions are that size times the ratio it holds, whichever of
  the two was set last. Releasing its graphics context does not touch the page. What
  a new surface holds is replaced by \<open>init\<close>: its size, its ratio and so its output.
\<close>

record webgl_renderer =
  antialias :: bool
  r_width :: real
  r_height :: real
  pixelRatio :: real
  output_width :: real
  output_height :: real
  shadowMap_enabled :: bool
  shadowMap_type :: shadow_map_type
  clearColor :: nat
  clearAlpha :: real
  context_released :: bool

definition WebGLRenderer :: "bool \<Rightarrow> webgl_renderer" where
  "WebGLRenderer aa =
     \<lparr>antialias = aa, r_width = 300, r_height = 150, pixelRatio = 1,
      output_width = 300, output_height = 150,
      shadowMap_enabled = False, shadowMap_type = PCFShadowMap,
      clearColor = 0, clearAlpha = 1, context_released = False\<rparr>"

definition setSize :: "real \<Rightarrow> real \<Rightarrow> webgl_renderer \<Rightarrow> webgl_renderer" where
  "setSize w h r =
     r\<lparr>r_width := w, r_height := h,
       output_width := w * pixelRatio r, output_height := h * pixelRatio r\<rparr>"

definition setPixelRatio :: "real \<Rightarrow> webgl_renderer \<Rightarrow> webgl_renderer" where
  "setPixelRatio v r = (let r' = r\<lparr>pixelRatio := v\<rparr> in setSize (r_width r') (r_height r') r')"

definition renderer_dispose :: "webgl_renderer \<Rightarrow> webgl_renderer" where
  "renderer_dispose r = r\<lparr>context_released := True\<rparr>"

text \<open>
  The orbit controls. \<open>maxDistance\<close> is \<open>Infinity\<close> (here \<open>None\<close>) until set;
  \<open>zoom_scale\<close> is the zoom factor that wheel input has asked for since the last
  update (1 when there was none); \<open>listening\<close> says that the listeners on the
  canvas are bound. The update that the library's constructor makes on its own, before
  any input, is left out.
\<close>

record orbit_controls =
  enableDamping :: bool
  dampingFactor :: real
  minDistance :: real
  maxDistance :: "real option"
  target :: vector3
  zoom_scale :: real
  listening :: bool

definition OrbitControls :: orbit_controls where
  "OrbitControls =
     \<lparr>enableDamping = False, dampingFactor = 0.05, minDistance = 0, maxDistance = None,
      target = vec 0 0 0, zoom_scale = 1, listening = True\<rparr>"

definition vsub :: "vector3 \<Rightarrow> vector3 \<Rightarrow> vector3" where
  "vsub a b = vec (vx a - vx b) (vy a - vy b) (vz a - vz b)"

definition vadd :: "vector3 \<Rightarrow> vector3 \<Rightarrow> vector3" where
  "vadd a b = vec (vx a + vx b) (vy a + vy b) (vz a + vz b)"

definition vscale :: "real \<Rightarrow> vector3 \<Rightarrow> vector3" where
  "vscale k a = vec (k * vx a) (k * vy a) (k * vz a)"

definition vlength :: "vector3 \<Rightarrow> real" where
  "vlength a = sqrt (vx a * vx a + vy a * vy a + vz a * vz a)"

text \<open>
  Modelled from the spec: the update step of the orbit controls, which is code of the
  three.js add-on \<open>OrbitControls\<close> and not of \<open>src/\<close>. The spec says that the update
  step reads the input state and writes back to the camera's position, and that a zoom
  input that attempts to set the camera distance outside the bounds is clamped to the
  nearest bound. So: the distance asked for is the present distance from the target
  times the pending zoom factor; the camera moves along its line to the target to the
  clamped distance; the pending factor is consumed. Rotation and panning by pointer
  and the damping of both are not modelled. A camera that sits on the target stays
  there.
\<close>

definition clampDistance :: "orbit_controls \<Rightarrow> real \<Rightarrow> real" where
  "clampDistance c d =
     max (minDistance c) (case maxDistance c of None \<Rightarrow> d | Some m \<Rightarrow> min m d)"

definition orbit_update ::
  "orbit_controls \<Rightarrow> perspective_camera \<Rightarrow> orbit_controls \<times> perspective_camera" where
  "orbit_update c cam =
     (let off = vsub (cam_position cam) (target c);
          r = vlength off;
          r' = clampDistance c (r * zoom_scale c)
      in (c\<lparr>zoom_scale := 1\<rparr>,
          if r = 0 then cam
          else cam\<lparr>cam_position := vadd (target c) (vscale (r' / r) off)\<rparr>))"

definition orbit_dispose :: "orbit_controls \<Rightarrow> orbit_controls" where
  "orbit_dispose c = c\<lparr>listening := False\<rparr>"

text \<open>The overlay of stats.js: the panel shown, the classes of its element, and the
  frames it has counted (\<open>end()\<close> counts one).\<close>

record stats_panel =
  panel :: nat
  classList :: "string list"
  in_frame :: bool
  frames :: nat

definition Stats :: stats_panel where
  "Stats = \<lparr>panel = 0, classList = [], in_frame = False, frames = 0\<rparr>"

subsection \<open>The browser\<close>

text \<open>The window as the program reads it, each time it reads it.\<close>

record window =
  innerWidth :: real
  innerHeight :: real
  devicePixelRatio :: real

text \<open>
  The page, as far as the program touches it: whether the element \<open>#app\<close> exists, and
  the parent of each of the two elements the program owns, the canvas of the renderer
  and the element of the overlay (\<open>None\<close>: detached). The order of siblings is not
  modelled.
\<close>

datatype element = RendererDomElement | StatsDom

datatype parent = App | Body

record page =
  has_app :: bool
  parent_of :: "element \<Rightarrow> parent option"

definition parentNode :: "page \<Rightarrow> element \<Rightarrow> parent option" where
  "parentNode p e = parent_of p e"

text \<open>\<open>appendChild\<close> moves the element under its new parent; \<open>removeChild\<close> is only
  ever called on the element's own parent.\<close>

definition appendChild :: "parent \<Rightarrow> element \<Rightarrow> page \<Rightarrow> page" where
  "appendChild par e p = p\<lparr>parent_of := (parent_of p)(e := Some par)\<rparr>"

definition removeChild :: "parent \<Rightarrow> element \<Rightarrow> page \<Rightarrow> page" where
  "removeChild par e p = p\<lparr>parent_of := (parent_of p)(e := None)\<rparr>"

text \<open>
  The log of what the methods do, in the order they do it: the calls to the browser and
  to the libraries, and the turning of the cube.
\<close>

datatype event =
    RequestAnimationFrame nat
  | CancelAnimationFrame nat
  | StatsBegin
  | CubeRotate
  | ControlsUpdate
  | RendererRender
  | StatsEnd
  | ControlsDispose
  | RendererDispose
  | RemoveChild parent element

datatype error = TypeError

subsection \<open>The class\<close>

text \<open>
  The fields of \<open>ThreeJSScene\<close>, then the browser. Objects of the scene graph live in
  \<open>heap\<close> and are named by their index there: the scene's children and the field
  \<open>cube\<close> name the same object. \<open>controls\<close> and \<open>cube\<close> are the two fields declared
  with \<open>!\<close>: undefined (\<open>None\<close>) until assigned. \<open>pending\<close> holds the handles of the
  animation-frame callbacks requested and neither run nor cancelled; \<open>raf_counter\<close> is
  the last handle the document has issued.
\<close>

record state =
  scene :: "nat list"
  heap :: "object3d list"
  camera :: perspective_camera
  renderer :: webgl_renderer
  controls :: "orbit_controls option"
  stats :: stats_panel
  cube :: "nat option"
  animationFrameId :: nat
  page :: page
  pending :: "nat list"
  raf_counter :: nat
  resize_listeners :: nat
  trace :: "event list"

definition emit :: "event \<Rightarrow> state \<Rightarrow> state" where
  "emit e s = s\<lparr>trace := trace s @ [e]\<rparr>"

text \<open>\<open>new X(...)\<close> allocates; \<open>scene.add(o)\<close> takes \<open>o\<close> from its parent and appends it.\<close>

definition alloc :: "object3d \<Rightarrow> state \<Rightarrow> nat \<times> state" where
  "alloc ob s = (length (heap s), s\<lparr>heap := heap s @ [ob]\<rparr>)"

definition scene_add :: "nat \<Rightarrow> state \<Rightarrow> state" where
  "scene_add r s = s\<lparr>scene := removeAll r (scene s) @ [r]\<rparr>"

definition modify_object :: "nat \<Rightarrow> (object3d \<Rightarrow> object3d) \<Rightarrow> state \<Rightarrow> state" where
  "modify_object r f s = s\<lparr>heap := (heap s)[r := f (heap s ! r)]\<rparr>"

text \<open>
  The animation frames of the document: a request issues the next handle, which is never
  zero, and queues the callback; a cancellation takes the handle off the queue and
  does nothing for a handle that is not there.
\<close>

definition requestAnimationFrame :: "state \<Rightarrow> nat \<times> state" where
  "requestAnimationFrame s =
     (let h = Suc (raf_counter s)
      in (h, emit (RequestAnimationFrame h) (s\<lparr>raf_counter := h, pending := pending s @ [h]\<rparr>)))"

definition cancelAnimationFrame :: "nat \<Rightarrow> state \<Rightarrow> state" where
  "cancelAnimationFrame h s = emit (CancelAnimationFrame h) (s\<lparr>pending := removeAll h (pending s)\<rparr>)"

text \<open>The field initialisers and the first four lines of the constructor.\<close>

definition fresh :: "window \<Rightarrow> page \<Rightarrow> nat \<Rightarrow> state" where
  "fresh w p n =
     \<lparr>scene = [], heap = [],
      camera = PerspectiveCamera 75 (innerWidth w / innerHeight w) 0.1 1000,
      renderer = WebGLRenderer True,
      controls = None, stats = Stats, cube = None, animationFrameId = 0,
      page = p, pending = [], raf_counter = n, resize_listeners = 0, trace = []\<rparr>"

definition init :: "window \<Rightarrow> state \<Rightarrow> error + state" where
  "init w s =
     (let r1 = setSize (innerWidth w) (innerHeight w) (renderer s);
          r2 = setPixelRatio (devicePixelRatio w) r1;
          r3 = r2\<lparr>shadowMap_enabled := True, shadowMap_type := PCFSoftShadowMap,
                  clearColor := 2236962, clearAlpha := 1\<rparr>;
          s1 = s\<lparr>renderer := r3\<rparr>
      in if \<not> has_app (page s1) then Inl TypeError
         else
             (let s2 = s1\<lparr>page := appendChild App RendererDomElement (page s1)\<rparr>;
                  c1 = (camera s2)\<lparr>cam_position := (cam_position (camera s2))\<lparr>vz := 5\<rparr>\<rparr>;
                  c2 = c1\<lparr>cam_position := (cam_position c1)\<lparr>vy := 2\<rparr>\<rparr>;
                  c3 = c2\<lparr>cam_position := (cam_position c2)\<lparr>vx := 2\<rparr>\<rparr>
              in Inr (s2\<lparr>camera := c3\<rparr>)))"

definition createLights :: "state \<Rightarrow> state" where
  "createLights s =
     (let (ambientLight, s1) = alloc (new_object (AmbientLight 4210752 0.6)) s;
          s2 = scene_add ambientLight s1;
          (directionalLight, s3) = alloc (new_object (DirectionalLight 16777215 1)) s2;
          s4 = modify_object directionalLight (\<lambda>ob. ob\<lparr>position := vec 10 10 5\<rparr>) s3;
          s5 = modify_object directionalLight (\<lambda>ob. ob\<lparr>castShadow := True\<rparr>) s4;
          s6 = modify_object directionalLight
                 (\<lambda>ob. ob\<lparr>shadow_mapSize := (2048, snd (shadow_mapSize ob))\<rparr>) s5;
          s7 = modify_object directionalLight
                 (\<lambda>ob. ob\<lparr>shadow_mapSize := (fst (shadow_mapSize ob), 2048)\<rparr>) s6
      in scene_add directionalLight s7)"

definition createGeometry :: "state \<Rightarrow> state" where
  "createGeometry s =
     (let (c, s1) = alloc (new_object (Mesh (BoxGeometry 1 1 1) (MeshLambertMaterial 65416))) s;
          s2 = s1\<lparr>cube := Some c\<rparr>;
          s3 = modify_object c (\<lambda>ob. ob\<lparr>castShadow := True\<rparr>) s2;
          s4 = modify_object c (\<lambda>ob. ob\<lparr>receiveShadow := True\<rparr>) s3;
          s5 = scene_add c s4;
          (plane, s6) = alloc (new_object (Mesh (PlaneGeometry 10 10) (MeshLambertMaterial 6710886))) s5;
          s7 = modify_object plane (\<lambda>ob. ob\<lparr>rotation := (rotation ob)\<lparr>rot_x := dhalf (dneg Math_PI)\<rparr>\<rparr>) s6;
          s8 = modify_object plane (\<lambda>ob. ob\<lparr>position := (position ob)\<lparr>vy := - 1\<rparr>\<rparr>) s7;
          s9 = modify_object plane (\<lambda>ob. ob\<lparr>receiveShadow := True\<rparr>) s8
      in scene_add plane s9)"

definition setupControls :: "state \<Rightarrow> state" where
  "setupControls s =
     (let c0 = OrbitControls;
          c1 = c0\<lparr>enableDamping := True\<rparr>;
          c2 = c1\<lparr>dampingFactor := 0.05\<rparr>;
          c3 = c2\<lparr>minDistance := 2\<rparr>;
          c4 = c3\<lparr>maxDistance := Some 20\<rparr>
      in s\<lparr>controls := Some c4\<rparr>)"

definition setupStats :: "state \<Rightarrow> state" where
  "setupStats s =
     (let st = (stats s)\<lparr>panel := 0\<rparr>;
          st' = st\<lparr>classList := classList st @ [''stats'']\<rparr>
      in s\<lparr>stats := st', page := appendChild Body StatsDom (page s)\<rparr>)"

definition setupEventListeners :: "state \<Rightarrow> state" where
  "setupEventListeners s = s\<lparr>resize_listeners := Suc (resize_listeners s)\<rparr>"

definition onWindowResize :: "window \<Rightarrow> state \<Rightarrow> state" where
  "onWindowResize w s =
     (let c1 = (camera s)\<lparr>aspect := innerWidth w / innerHeight w\<rparr>;
          c2 = updateProjectionMatrix c1
      in s\<lparr>camera := c2, renderer := setSize (innerWidth w) (innerHeight w) (renderer s)\<rparr>)"

text \<open>
  \<open>animate\<close>, statement by statement. Reading \<open>this.cube.rotation\<close> or calling
  \<open>this.controls.update()\<close> on an undefined field throws. The two \<open>+= 0.01\<close> are
  additions of doubles.
\<close>

definition animate :: "state \<Rightarrow> error + state" where
  "animate s =
     (let (h, s1) = requestAnimationFrame s;
          s2 = s1\<lparr>animationFrameId := h\<rparr>;
          s3 = emit StatsBegin (s2\<lparr>stats := (stats s2)\<lparr>in_frame := True\<rparr>\<rparr>)
      in case cube s3 of
           None \<Rightarrow> Inl TypeError
         | Some c \<Rightarrow>
             (let s4 = modify_object c (\<lambda>ob. ob\<lparr>rotation := (rotation ob)\<lparr>rot_x := dadd (rot_x (rotation ob)) hundredth\<rparr>\<rparr>) s3;
                  s5 = modify_object c (\<lambda>ob. ob\<lparr>rotation := (rotation ob)\<lparr>rot_y := dadd (rot_y (rotation ob)) hundredth\<rparr>\<rparr>) s4;
                  s6 = emit CubeRotate s5
              in case controls s6 of
                   None \<Rightarrow> Inl TypeError
                 | Some ctl \<Rightarrow>
                     (let (ctl', cam') = orbit_update ctl (camera s6);
                          s7 = emit ControlsUpdate (s6\<lparr>controls := Some ctl', camera := cam'\<rparr>);
                          s8 = emit RendererRender s7;
                          s9 = emit StatsEnd
                                 (s8\<lparr>stats := (stats s8)\<lparr>in_frame := False,
                                                          frames := Suc (frames (stats s8))\<rparr>\<rparr>)
                      in Inr s9)))"

definition dispose :: "state \<Rightarrow> error + state" where
  "dispose s =
     (let s1 = (if animationFrameId s \<noteq> 0 then cancelAnimationFrame (animationFrameId s) s else s)
      in case controls s1 of
           None \<Rightarrow> Inl TypeError
         | Some ctl \<Rightarrow>
             (let s2 = emit ControlsDispose (s1\<lparr>controls := Some (orbit_dispose ctl)\<rparr>);
                  s3 = emit RendererDispose (s2\<lparr>renderer := renderer_dispose (renderer s2)\<rparr>)
              in case parentNode (page s3) StatsDom of
                   None \<Rightarrow> Inr s3
                 | Some par \<Rightarrow>
                     Inr (emit (RemoveChild par StatsDom)
                            (s3\<lparr>page := removeChild par StatsDom (page s3)\<rparr>))))"

text \<open>The constructor: \<open>n\<close> is the last animation-frame handle the document has issued.\<close>

definition construct :: "window \<Rightarrow> page \<Rightarrow> nat \<Rightarrow> error + state" where
  "construct w p n =
     (case init w (fresh w p n) of
        Inl e \<Rightarrow> Inl e
      | Inr s1 \<Rightarrow>
          animate (setupEventListeners (setupStats (setupControls (createGeometry (createLights s1))))))"

subsection \<open>The browser drives the program\<close>

text \<open>
  A display refresh runs the animation-frame callbacks: the list of callbacks is taken
  and emptied, then each is called in order. Every callback in \<open>pending\<close> is
  \<open>animate\<close> bound to the instance.
\<close>

fun run_callbacks :: "nat list \<Rightarrow> state \<Rightarrow> error + state" where
  "run_callbacks [] s = Inr s"
| "run_callbacks (h # hs) s =
     (case animate s of Inl e \<Rightarrow> Inl e | Inr s' \<Rightarrow> run_callbacks hs s')"

definition run_animation_frame :: "state \<Rightarrow> error + state" where
  "run_animation_frame s = run_callbacks (pending s) (s\<lparr>pending := []\<rparr>)"

text \<open>A resize of the window calls every listener that \<open>setupEventListeners\<close> has
  registered; the listener reads the window as it is then.\<close>

definition fire_resize :: "window \<Rightarrow> state \<Rightarrow> state" where
  "fire_resize w s = ((onWindowResize w) ^^ resize_listeners s) s"

text \<open>
  Modelled from the spec: wheel input to the orbit controls, code of the three.js add-on
  and not of \<open>src/\<close>. While the listeners are bound, a zoom input multiplies the
  pending zoom factor; once they are released it does nothing.
\<close>

definition wheel :: "real \<Rightarrow> state \<Rightarrow> state" where
  "wheel k s =
     (case controls s of
        None \<Rightarrow> s
      | Some c \<Rightarrow>
          if listening c then s\<lparr>controls := Some (c\<lparr>zoom_scale := zoom_scale c * k\<rparr>)\<rparr> else s)"

datatype input = Frame | Resize window | Wheel real | Dispose

fun apply_input :: "input \<Rightarrow> state \<Rightarrow> error + state" where
  "apply_input Frame s = run_animation_frame s"
| "apply_input (Resize w) s = Inr (fire_resize w s)"
| "apply_input (Wheel k) s = Inr (wheel k s)"
| "apply_input Dispose s = dispose s"

fun run :: "input list \<Rightarrow> state \<Rightarrow> error + state" where
  "run [] s = Inr s"
| "run (i # ins) s = (case apply_input i s of Inl e \<Rightarrow> Inl e | Inr s' \<Rightarrow> run ins s')"

text \<open>\<open>n\<close> calls of \<open>animate\<close>, one after the other.\<close>

fun animate_n :: "nat \<Rightarrow> state \<Rightarrow> error + state" where
  "animate_n 0 s = Inr s"
| "animate_n (Suc n) s = (case animate s of Inl e \<Rightarrow> Inl e | Inr s' \<Rightarrow> animate_n n s')"

subsection \<open>Observations\<close>

definition events_since :: "state \<Rightarrow> state \<Rightarrow> event list" where
  "events_since s s' = drop (length (trace s)) (trace s')"

definition animate_count :: "state \<Rightarrow> nat" where
  "animate_count s = length (filter (\<lambda>e. e = StatsBegin) (trace s))"

definition cube_rotation :: "state \<Rightarrow> euler option" where
  "cube_rotation s = map_option (\<lambda>c. rotation (heap s ! c)) (cube s)"

text \<open>The rotation of the cube after \<open>n\<close> calls of \<open>animate\<close>; the events that one call
  of \<open>animate\<close> adds.\<close>

definition cube_rotation_after :: "nat \<Rightarrow> state \<Rightarrow> error + euler" where
  "cube_rotation_after n s =
     (case animate_n n s of
        Inl e \<Rightarrow> Inl e
      | Inr s' \<Rightarrow> (case cube_rotation s' of None \<Rightarrow> Inl TypeError | Some r \<Rightarrow> Inr r))"

definition step_events :: "state \<Rightarrow> error + event list" where
  "step_events s = (case animate s of Inl e \<Rightarrow> Inl e | Inr s' \<Rightarrow> Inr (events_since s s'))"

definition scene_objects :: "state \<Rightarrow> object3d list" where
  "scene_objects s = map (\<lambda>r. heap s ! r) (scene s)"

fun is_ambient_light :: "object3d \<Rightarrow> bool" where
  "is_ambient_light ob = (case kind ob of AmbientLight _ _ \<Rightarrow> True | _ \<Rightarrow> False)"

fun is_directional_light :: "object3d \<Rightarrow> bool" where
  "is_directional_light ob = (case kind ob of DirectionalLight _ _ \<Rightarrow> True | _ \<Rightarrow> False)"

fun is_cube_mesh :: "object3d \<Rightarrow> bool" where
  "is_cube_mesh ob = (case kind ob of Mesh (BoxGeometry _ _ _) _ \<Rightarrow> True | _ \<Rightarrow> False)"

fun is_plane_mesh :: "object3d \<Rightarrow> bool" where
  "is_plane_mesh ob = (case kind ob of Mesh (PlaneGeometry _ _) _ \<Rightarrow> True | _ \<Rightarrow> False)"

definition camera_distance :: "orbit_controls \<Rightarrow> perspective_camera \<Rightarrow> real" where
  "camera_distance c cam = vlength (vsub (cam_position cam) (target c))"

text \<open>
  The sum of \<open>n\<close> terms \<open>0.01\<close>, added one after the other to \<open>0\<close> as doubles: the
  angle that \<open>n\<close> steps of 0.01 radians make in the arithmetic of the program.
\<close>

fun repeated_sum :: "nat \<Rightarrow> double" where
  "repeated_sum 0 = dzero"
| "repeated_sum (Suc n) = dadd (repeated_sum n) hundredth"

text \<open>An object turned by \<open>n\<close> such steps about x and about y, and not about z.\<close>

definition turned :: "nat \<Rightarrow> euler" where
  "turned n = \<lparr>rot_x = repeated_sum n, rot_y = repeated_sum n, rot_z = dzero\<rparr>"

text \<open>Two angles are the same modulo a full turn.\<close>

definition same_angle :: "real \<Rightarrow> real \<Rightarrow> bool" where
  "same_angle a b = (\<exists>k::int. a - b = of_int k * (2 * pi))"

text \<open>
  What the constructor establishes and every later input keeps: the cube is object 2 of
  a heap of four, the scene holds the four objects, one resize listener is registered,
  at most the handle in \<open>animationFrameId\<close> is outstanding, the canvas sits under
  \<open>#app\<close>, and the controls carry the bounds 2 and 20 with the camera between them.
\<close>

definition well_formed :: "state \<Rightarrow> bool" where
  "well_formed s =
     (cube s = Some 2 \<and> length (heap s) = 4 \<and> scene s = [0, 1, 2, 3] \<and>
      resize_listeners s = 1 \<and>
      (pending s = [] \<or> pending s = [animationFrameId s]) \<and> animationFrameId s \<noteq> 0 \<and>
      parentNode (page s) RendererDomElement = Some App \<and>
      (case controls s of
         None \<Rightarrow> False
       | Some c \<Rightarrow>
           minDistance c = 2 \<and> maxDistance c = Some 20 \<and>
           2 \<le> camera_distance c (camera s) \<and> camera_distance c (camera s) \<le> 20))"

text \<open>A window of 800 by 600 at pixel ratio 1, and a page with an empty \<open>#app\<close>.\<close>

definition demo_window :: window where
  "demo_window = \<lparr>innerWidth = 800, innerHeight = 600, devicePixelRatio = 1\<rparr>"

definition demo_page :: page where
  "demo_page = \<lparr>has_app = True, parent_of = (\<lambda>_. None)\<rparr>"

text \<open>A window of the same size where the device pixel ratio is 2.\<close>

definition zoomed_window :: window where
  "zoomed_window = \<lparr>innerWidth = 800, innerHeight = 600, devicePixelRatio = 2\<rparr>"

text \<open>The state the constructor leaves on the demo window and page.\<close>

definition demo_state :: state where
  "demo_state =
     (case construct demo_window demo_page 0 of
        Inr s \<Rightarrow> s
      | Inl e \<Rightarrow> fresh demo_window demo_page 0)"

section \<open>Lemmas\<close>

subsection \<open>Doubles\<close>

lemma dadd_dzero_hundredth: "dadd dzero hundredth = hundredth"
  by code_simp

lemma repeated_sum_add: "repeated_sum (n + Suc k) = dadd (repeated_sum (n + k)) hundredth"
  by simp

lemma repeated_sum_6: "repeated_sum 6 = Double 8646911284551353 (- 57)"
  by code_simp

lemma same_angle_refl: "same_angle a a"
  by (simp add: same_angle_def)

lemma not_same_angle:
  assumes "a \<noteq> b" and "\<bar>a - b\<bar> < 4"
  shows "\<not> same_angle a b"
proof
  assume "same_angle a b"
  then obtain k :: int where k: "a - b = of_int k * (2 * pi)"
    by (auto simp: same_angle_def)
  with assms(1) have "k \<noteq> 0"
    by auto
  then have "1 \<le> \<bar>k\<bar>"
    by simp
  then have "1 \<le> \<bar>real_of_int k\<bar>"
    by linarith
  then have "2 * pi \<le> \<bar>real_of_int k\<bar> * (2 * pi)"
    by (simp add: mult_le_cancel_right1)
  also have "\<dots> = \<bar>a - b\<bar>"
    by (simp add: k abs_mult)
  finally show False
    using assms(2) pi_ge_two by simp
qed

subsection \<open>Vectors and the orbit update\<close>

lemma vec_simps [simp]: "vx (vec a b c) = a" "vy (vec a b c) = b" "vz (vec a b c) = c"
  by (simp_all add: vec_def)

lemma vec_eta: "vec (vx v) (vy v) (vz v) = v"
  by (simp add: vec_def)

lemma vlength_vscale: "vlength (vscale k v) = \<bar>k\<bar> * vlength v"
proof -
  have "(k * vx v) * (k * vx v) + (k * vy v) * (k * vy v) + (k * vz v) * (k * vz v)
        = k\<^sup>2 * (vx v * vx v + vy v * vy v + vz v * vz v)"
    by (simp add: power2_eq_square algebra_simps)
  then show ?thesis
    by (simp add: vlength_def vscale_def real_sqrt_mult)
qed

lemma vsub_vadd: "vsub (vadd t v) t = v"
  by (simp add: vsub_def vadd_def vec_eta)

lemma sqrt33_gt: "2 < sqrt 33"
  by (rule real_less_rsqrt) simp

lemma sqrt33_lt: "sqrt 33 < 20"
  by (rule real_less_lsqrt) simp_all

lemma orbit_update_fst: "fst (orbit_update c cam) = c\<lparr>zoom_scale := 1\<rparr>"
  by (simp add: orbit_update_def Let_def)

lemma orbit_update_distance:
  assumes "camera_distance c cam \<noteq> 0"
    and "0 \<le> clampDistance c (camera_distance c cam * zoom_scale c)"
  shows "camera_distance (fst (orbit_update c cam)) (snd (orbit_update c cam))
         = clampDistance c (camera_distance c cam * zoom_scale c)"
proof -
  let ?off = "vsub (cam_position cam) (target c)"
  let ?r = "vlength ?off"
  let ?r' = "clampDistance c (?r * zoom_scale c)"
  have r: "?r \<noteq> 0" and r': "0 \<le> ?r'"
    using assms by (simp_all add: camera_distance_def)
  have rpos: "0 < ?r"
    using r by (simp add: vlength_def less_le)
  have "camera_distance (fst (orbit_update c cam)) (snd (orbit_update c cam))
        = vlength (vscale (?r' / ?r) ?off)"
    using r by (simp add: camera_distance_def orbit_update_def Let_def vsub_vadd)
  also have "\<dots> = \<bar>?r' / ?r\<bar> * ?r"
    by (rule vlength_vscale)
  also have "\<dots> = ?r'"
    using rpos r' by simp
  finally show ?thesis
    by (simp add: camera_distance_def)
qed

lemma clampDistance_range:
  assumes "minDistance c = 2" and "maxDistance c = Some 20"
  shows "clampDistance c d = (if d < 2 then 2 else if 20 < d then 20 else d)"
  using assms by (simp add: clampDistance_def max_def min_def)

lemma orbit_update_in_range:
  assumes "minDistance c = 2" and "maxDistance c = Some 20"
    and "2 \<le> camera_distance c cam"
  shows "2 \<le> camera_distance (fst (orbit_update c cam)) (snd (orbit_update c cam))"
    and "camera_distance (fst (orbit_update c cam)) (snd (orbit_update c cam)) \<le> 20"
    and "camera_distance (fst (orbit_update c cam)) (snd (orbit_update c cam))
         = clampDistance c (camera_distance c cam * zoom_scale c)"
proof -
  let ?d = "camera_distance c cam * zoom_scale c"
  have cl: "clampDistance c ?d = (if ?d < 2 then 2 else if 20 < ?d then 20 else ?d)"
    using assms(1,2) by (rule clampDistance_range)
  then have nonneg: "0 \<le> clampDistance c ?d"
    by (simp split: if_splits)
  have nz: "camera_distance c cam \<noteq> 0"
    using assms(3) by simp
  show eq: "camera_distance (fst (orbit_update c cam)) (snd (orbit_update c cam))
         = clampDistance c ?d"
    using nz nonneg by (rule orbit_update_distance)
  show "2 \<le> camera_distance (fst (orbit_update c cam)) (snd (orbit_update c cam))"
    unfolding eq cl by simp
  show "camera_distance (fst (orbit_update c cam)) (snd (orbit_update c cam)) \<le> 20"
    unfolding eq cl by simp
qed

subsection \<open>One call of \<open>animate\<close>\<close>

lemma animate_total:
  assumes "cube s = Some c" and "controls s = Some ctl"
  shows "\<exists>t. animate s = Inr t"
  using assms
  by (simp add: animate_def requestAnimationFrame_def emit_def modify_object_def Let_def
      split: prod.splits)

lemma animate_fields:
  assumes "animate s = Inr t"
  shows "cube t = cube s"
    and "scene t = scene s"
    and "length (heap t) = length (heap s)"
    and "renderer t = renderer s"
    and "page t = page s"
    and "resize_listeners t = resize_listeners s"
    and "animationFrameId t = Suc (raf_counter s)"
    and "raf_counter t = Suc (raf_counter s)"
    and "pending t = pending s @ [Suc (raf_counter s)]"
    and "trace t = trace s @ [RequestAnimationFrame (Suc (raf_counter s)), StatsBegin,
           CubeRotate, ControlsUpdate, RendererRender, StatsEnd]"
  using assms
  by (auto simp: animate_def requestAnimationFrame_def emit_def modify_object_def Let_def
      split: prod.splits option.splits)

lemma animate_controls:
  assumes "animate s = Inr t"
  obtains c where "controls s = Some c"
    and "controls t = Some (fst (orbit_update c (camera s)))"
    and "camera t = snd (orbit_update c (camera s))"
  using assms
  by (auto simp: animate_def requestAnimationFrame_def emit_def modify_object_def Let_def
      split: prod.splits option.splits)

lemma animate_rotation:
  assumes "animate s = Inr t" and "cube s = Some c" and "c < length (heap s)"
  shows "rotation (heap t ! c) =
           (rotation (heap s ! c))
             \<lparr>rot_x := dadd (rot_x (rotation (heap s ! c))) hundredth,
              rot_y := dadd (rot_y (rotation (heap s ! c))) hundredth\<rparr>"
  using assms
  by (auto simp: animate_def requestAnimationFrame_def emit_def modify_object_def Let_def
      split: prod.splits option.splits)

subsection \<open>The constructor\<close>

lemmas setup_defs = init_def fresh_def createLights_def createGeometry_def setupControls_def
  setupStats_def setupEventListeners_def alloc_def scene_add_def modify_object_def
  new_object_def vec_def PerspectiveCamera_def updateProjectionMatrix_def WebGLRenderer_def
  setSize_def setPixelRatio_def OrbitControls_def Stats_def appendChild_def

lemma construct_Inl: "\<not> has_app p \<Longrightarrow> construct w p n = Inl TypeError"
  by (simp add: construct_def init_def fresh_def Let_def)

lemma construct_has_app: "construct w p n = Inr s \<Longrightarrow> has_app p"
  using construct_Inl [of p w n] by auto

lemma construct_eq:
  assumes "has_app p"
  shows "construct w p n =
    Inr \<lparr>scene = [0, 1, 2, 3],
         heap =
           [\<lparr>kind = AmbientLight 4210752 0.6, position = vec 0 0 0, rotation = turned 0,
             castShadow = False, receiveShadow = False, shadow_mapSize = (512, 512)\<rparr>,
            \<lparr>kind = DirectionalLight 16777215 1, position = vec 10 10 5,
             rotation = turned 0, castShadow = True, receiveShadow = False,
             shadow_mapSize = (2048, 2048)\<rparr>,
            \<lparr>kind = Mesh (BoxGeometry 1 1 1) (MeshLambertMaterial 65416),
             position = vec 0 0 0, rotation = turned 1, castShadow = True,
             receiveShadow = True, shadow_mapSize = (512, 512)\<rparr>,
            \<lparr>kind = Mesh (PlaneGeometry 10 10) (MeshLambertMaterial 6710886),
             position = vec 0 (- 1) 0,
             rotation = \<lparr>rot_x = dhalf (dneg Math_PI), rot_y = dzero, rot_z = dzero\<rparr>,
             castShadow = False, receiveShadow = True, shadow_mapSize = (512, 512)\<rparr>],
         camera =
           \<lparr>fov = 75, aspect = innerWidth w / innerHeight w, near = 0.1, far = 1000,
            cam_position = vec 2 2 5,
            projection = (75, innerWidth w / innerHeight w, 0.1, 1000)\<rparr>,
         renderer =
           \<lparr>antialias = True, r_width = innerWidth w, r_height = innerHeight w,
            pixelRatio = devicePixelRatio w,
            output_width = innerWidth w * devicePixelRatio w,
            output_height = innerHeight w * devicePixelRatio w,
            shadowMap_enabled = True, shadowMap_type = PCFSoftShadowMap,
            clearColor = 2236962, clearAlpha = 1, context_released = False\<rparr>,
         controls =
           Some \<lparr>enableDamping = True, dampingFactor = 0.05, minDistance = 2,
                 maxDistance = Some 20, target = vec 0 0 0, zoom_scale = 1,
                 listening = True\<rparr>,
         stats = \<lparr>panel = 0, classList = [''stats''], in_frame = False, frames = 1\<rparr>,
         cube = Some 2,
         animationFrameId = Suc n,
         page = p\<lparr>parent_of := (parent_of p)(RendererDomElement \<mapsto> App, StatsDom \<mapsto> Body)\<rparr>,
         pending = [Suc n],
         raf_counter = Suc n,
         resize_listeners = 1,
         trace = [RequestAnimationFrame (Suc n), StatsBegin, CubeRotate, ControlsUpdate,
                  RendererRender, StatsEnd]\<rparr>"
  using assms sqrt33_gt sqrt33_lt
  by (simp add: construct_def setup_defs animate_def requestAnimationFrame_def emit_def
      orbit_update_def vlength_def vsub_def vadd_def vscale_def clampDistance_def
      turned_def dadd_dzero_hundredth
      Let_def max_def min_def numeral_2_eq_2 numeral_3_eq_3)

lemma construct_state:
  assumes "construct w p n = Inr s"
  shows "s =
    \<lparr>scene = [0, 1, 2, 3],
     heap =
       [\<lparr>kind = AmbientLight 4210752 0.6, position = vec 0 0 0, rotation = turned 0,
         castShadow = False, receiveShadow = False, shadow_mapSize = (512, 512)\<rparr>,
        \<lparr>kind = DirectionalLight 16777215 1, position = vec 10 10 5,
         rotation = turned 0, castShadow = True, receiveShadow = False,
         shadow_mapSize = (2048, 2048)\<rparr>,
        \<lparr>kind = Mesh (BoxGeometry 1 1 1) (MeshLambertMaterial 65416),
         position = vec 0 0 0, rotation = turned 1, castShadow = True,
         receiveShadow = True, shadow_mapSize = (512, 512)\<rparr>,
        \<lparr>kind = Mesh (PlaneGeometry 10 10) (MeshLambertMaterial 6710886),
         position = vec 0 (- 1) 0,
         rotation = \<lparr>rot_x = dhalf (dneg Math_PI), rot_y = dzero, rot_z = dzero\<rparr>,
         castShadow = False, receiveShadow = True, shadow_mapSize = (512, 512)\<rparr>],
     camera =
       \<lparr>fov = 75, aspect = innerWidth w / innerHeight w, near = 0.1, far = 1000,
        cam_position = vec 2 2 5,
        projection = (75, innerWidth w / innerHeight w, 0.1, 1000)\<rparr>,
     renderer =
       \<lparr>antialias = True, r_width = innerWidth w, r_height = innerHeight w,
        pixelRatio = devicePixelRatio w,
        output_width = innerWidth w * devicePixelRatio w,
        output_height = innerHeight w * devicePixelRatio w,
        shadowMap_enabled = True, shadowMap_type = PCFSoftShadowMap,
        clearColor = 2236962, clearAlpha = 1, context_released = False\<rparr>,
     controls =
       Some \<lparr>enableDamping = True, dampingFactor = 0.05, minDistance = 2,
             maxDistance = Some 20, target = vec 0 0 0, zoom_scale = 1,
             listening = True\<rparr>,
     stats = \<lparr>panel = 0, classList = [''stats''], in_frame = False, frames = 1\<rparr>,
     cube = Some 2,
     animationFrameId = Suc n,
     page = p\<lparr>parent_of := (parent_of p)(RendererDomElement \<mapsto> App, StatsDom \<mapsto> Body)\<rparr>,
     pending = [Suc n],
     raf_counter = Suc n,
     resize_listeners = 1,
     trace = [RequestAnimationFrame (Suc n), StatsBegin, CubeRotate, ControlsUpdate,
              RendererRender, StatsEnd]\<rparr>"
proof -
  have "has_app p"
    using assms by (rule construct_has_app)
  from assms [unfolded construct_eq [OF this]] show ?thesis
    by simp
qed

lemma construct_well_formed:
  assumes "construct w p n = Inr s"
  shows "well_formed s"
  using sqrt33_gt sqrt33_lt
  by (simp add: construct_state [OF assms] well_formed_def camera_distance_def vlength_def
      vsub_def parentNode_def)

lemma construct_demo: "construct demo_window demo_page 0 = Inr demo_state"
proof -
  have "has_app demo_page"
    by (simp add: demo_page_def)
  from construct_eq [OF this, of demo_window 0] show ?thesis
    by (simp add: demo_state_def)
qed

lemmas demo_state_eq = construct_state [OF construct_demo]

lemma demo_well_formed: "well_formed demo_state"
  using construct_demo by (rule construct_well_formed)

lemma demo_schedule:
  "raf_counter demo_state = 1" "pending demo_state = [1]" "animationFrameId demo_state = 1"
  by (simp_all add: demo_state_eq)

lemma demo_distance:
  assumes "target c = vec 0 0 0"
  shows "camera_distance c (camera demo_state) = sqrt 33"
  using assms by (simp add: camera_distance_def demo_state_eq vlength_def vsub_def)

subsection \<open>Resize and dispose in closed form\<close>

lemma onWindowResize_eq:
  "onWindowResize w s =
     s\<lparr>camera := (camera s)\<lparr>aspect := innerWidth w / innerHeight w,
                              projection := (fov (camera s), innerWidth w / innerHeight w,
                                             near (camera s), far (camera s))\<rparr>,
       renderer := (renderer s)\<lparr>r_width := innerWidth w, r_height := innerHeight w,
                                  output_width := innerWidth w * pixelRatio (renderer s),
                                  output_height := innerHeight w * pixelRatio (renderer s)\<rparr>\<rparr>"
  by (simp add: onWindowResize_def updateProjectionMatrix_def setSize_def Let_def)

lemma dispose_eq:
  assumes "controls s = Some c"
  shows "dispose s =
    Inr (s\<lparr>pending := (if animationFrameId s \<noteq> 0
                          then removeAll (animationFrameId s) (pending s) else pending s),
           controls := Some (c\<lparr>listening := False\<rparr>),
           renderer := (renderer s)\<lparr>context_released := True\<rparr>,
           page := (case parentNode (page s) StatsDom of
                      None \<Rightarrow> page s
                    | Some par \<Rightarrow> (page s)\<lparr>parent_of := (parent_of (page s))(StatsDom := None)\<rparr>),
           trace := trace s
             @ (if animationFrameId s \<noteq> 0 then [CancelAnimationFrame (animationFrameId s)] else [])
             @ [ControlsDispose, RendererDispose]
             @ (case parentNode (page s) StatsDom of
                  None \<Rightarrow> []
                | Some par \<Rightarrow> [RemoveChild par StatsDom])\<rparr>)"
  using assms
  by (simp add: dispose_def cancelAnimationFrame_def emit_def orbit_dispose_def
      renderer_dispose_def removeChild_def Let_def split: option.splits)

lemma dispose_fields:
  assumes c: "controls s = Some c" and d: "dispose s = Inr d"
  shows "controls d = Some (c\<lparr>listening := False\<rparr>)"
    and "context_released (renderer d)"
    and "parentNode (page d) StatsDom = None"
    and "animationFrameId d = animationFrameId s"
    and "pending d = (if animationFrameId s = 0 then pending s
                      else removeAll (animationFrameId s) (pending s))"
    and "page d = (case parentNode (page s) StatsDom of
                     None \<Rightarrow> page s
                   | Some par \<Rightarrow> removeChild par StatsDom (page s))"
    and "trace d = trace s
           @ (if animationFrameId s = 0 then []
              else [CancelAnimationFrame (animationFrameId s)])
           @ [ControlsDispose, RendererDispose]
           @ (case parentNode (page s) StatsDom of
                None \<Rightarrow> []
              | Some par \<Rightarrow> [RemoveChild par StatsDom])"
    and "pixelRatio (renderer d) = pixelRatio (renderer s)"
  using d unfolding dispose_eq [OF c]
  by (auto simp: parentNode_def removeChild_def split: option.splits)

lemma dispose_again:
  assumes c: "controls d = Some c" and l: "\<not> listening c"
    and r: "context_released (renderer d)"
    and det: "parentNode (page d) StatsDom = None"
    and gone: "animationFrameId d = 0 \<or> animationFrameId d \<notin> set (pending d)"
  shows "dispose d =
    Inr (d\<lparr>trace := trace d
             @ (if animationFrameId d = 0 then []
                else [CancelAnimationFrame (animationFrameId d)])
             @ [ControlsDispose, RendererDispose]\<rparr>)"
proof -
  have c': "c\<lparr>listening := False\<rparr> = c"
    using l by (cases c) simp
  have r': "(renderer d)\<lparr>context_released := True\<rparr> = renderer d"
    using r by (cases "renderer d") simp
  have p': "(if animationFrameId d \<noteq> 0 then removeAll (animationFrameId d) (pending d)
             else pending d) = pending d"
    using gone by auto
  have k: "d\<lparr>controls := Some c\<rparr> = d"
    using c by (cases d) simp
  show ?thesis
    unfolding dispose_eq [OF c] c' r' p' det using k
    by (cases d) auto
qed

subsection \<open>What every input keeps\<close>

lemma well_formed_controls:
  assumes "well_formed s"
  obtains c where "controls s = Some c" and "minDistance c = 2" and "maxDistance c = Some 20"
    and "2 \<le> camera_distance c (camera s)" and "camera_distance c (camera s) \<le> 20"
  using assms by (auto simp: well_formed_def split: option.splits)

lemma animate_keeps_well_formed:
  assumes wf: "well_formed s" and a: "animate (s\<lparr>pending := []\<rparr>) = Inr t"
  shows "well_formed t"
proof -
  from wf obtain c where c: "controls s = Some c" and cfg: "minDistance c = 2"
    "maxDistance c = Some 20" "2 \<le> camera_distance c (camera s)"
    by (rule well_formed_controls)
  note f = animate_fields [OF a]
  from a c have ct: "controls t = Some (fst (orbit_update c (camera s)))"
    and cam: "camera t = snd (orbit_update c (camera s))"
    by (auto elim!: animate_controls)
  note rng = orbit_update_in_range [OF cfg]
  show ?thesis
    using wf cfg rng(1,2)
    by (simp add: well_formed_def f ct cam orbit_update_fst)
qed

lemma fire_resize_well_formed:
  "well_formed s \<Longrightarrow> fire_resize w s = onWindowResize w s"
  by (simp add: fire_resize_def well_formed_def)

lemma run_animation_frame_cases:
  assumes "well_formed s"
  shows "(pending s = [] \<and> run_animation_frame s = Inr s)
       \<or> (pending s = [animationFrameId s]
           \<and> run_animation_frame s = animate (s\<lparr>pending := []\<rparr>))"
proof (cases "pending s = []")
  case True
  then have "s\<lparr>pending := []\<rparr> = s"
    by simp
  with True show ?thesis
    by (simp add: run_animation_frame_def)
next
  case False
  with assms have "pending s = [animationFrameId s]"
    by (simp add: well_formed_def)
  then show ?thesis
    by (simp add: run_animation_frame_def split: sum.splits)
qed

lemma apply_input_well_formed:
  assumes wf: "well_formed s" and step: "apply_input i s = Inr t"
  shows "well_formed t"
proof (cases i)
  case Frame
  with step run_animation_frame_cases [OF wf] wf show ?thesis
    by (auto intro: animate_keeps_well_formed)
next
  case (Resize w)
  with step wf have "t = onWindowResize w s"
    by (simp add: fire_resize_well_formed)
  with wf show ?thesis
    by (simp add: onWindowResize_eq well_formed_def camera_distance_def parentNode_def
        split: option.splits)
next
  case (Wheel k)
  with step have "t = wheel k s"
    by simp
  with wf show ?thesis
    by (auto simp: wheel_def well_formed_def camera_distance_def parentNode_def
        split: option.splits)
next
  case Dispose
  from wf obtain c where c: "controls s = Some c"
    by (rule well_formed_controls)
  from Dispose step dispose_eq [OF c] wf c show ?thesis
    by (auto simp: well_formed_def camera_distance_def parentNode_def split: option.splits)
qed

lemma apply_input_total:
  assumes wf: "well_formed s"
  shows "\<exists>t. apply_input i s = Inr t"
proof (cases i)
  case Frame
  from wf obtain c where "controls s = Some c"
    by (rule well_formed_controls)
  moreover from wf have "cube s = Some 2"
    by (simp add: well_formed_def)
  ultimately have "\<exists>t. animate (s\<lparr>pending := []\<rparr>) = Inr t"
    by (intro animate_total) simp_all
  with Frame run_animation_frame_cases [OF wf] show ?thesis
    by auto
next
  case Dispose
  from wf obtain c where "controls s = Some c"
    by (rule well_formed_controls)
  from dispose_eq [OF this] Dispose show ?thesis
    by simp
qed simp_all

lemma run_well_formed:
  "well_formed s \<Longrightarrow> run ins s = Inr t \<Longrightarrow> well_formed t"
proof (induction ins arbitrary: s)
  case Nil
  then show ?case by simp
next
  case (Cons i ins)
  then show ?case
    by (auto split: sum.splits dest: apply_input_well_formed)
qed

lemma run_total:
  "well_formed s \<Longrightarrow> \<exists>t. run ins s = Inr t"
proof (induction ins arbitrary: s)
  case Nil
  then show ?case by simp
next
  case (Cons i ins)
  from apply_input_total [OF Cons.prems, of i] obtain u where u: "apply_input i s = Inr u"
    by blast
  with Cons.prems have "well_formed u"
    by (auto dest: apply_input_well_formed)
  from Cons.IH [OF this] u show ?case
    by simp
qed

lemma reachable_well_formed:
  assumes "construct w p n = Inr s0" and "run ins s0 = Inr s"
  shows "well_formed s"
  using construct_well_formed [OF assms(1)] assms(2) by (rule run_well_formed)

subsection \<open>Facts the claims share\<close>

lemma animate_turns:
  assumes "animate s = Inr t" and "cube s = Some c" and "c < length (heap s)"
    and "rotation (heap s ! c) = turned n"
  shows "rotation (heap t ! c) = turned (Suc n)"
  using animate_rotation [OF assms(1-3)] assms(4) by (simp add: turned_def)

lemma animate_n_rotation:
  assumes "cube s = Some c" and "c < length (heap s)" and "controls s \<noteq> None"
    and "rotation (heap s ! c) = turned n"
  shows "\<exists>s'. animate_n k s = Inr s' \<and> cube s' = Some c
           \<and> rotation (heap s' ! c) = turned (n + k)"
  using assms
proof (induction k arbitrary: s n)
  case 0
  then show ?case by simp
next
  case (Suc k)
  from Suc.prems obtain ctl where ctl: "controls s = Some ctl"
    by auto
  from animate_total [OF Suc.prems(1) ctl] obtain u where u: "animate s = Inr u"
    by blast
  note f = animate_fields [OF u]
  have cu: "cube u = Some c" and lu: "c < length (heap u)"
    using Suc.prems by (simp_all add: f)
  have nu: "controls u \<noteq> None"
    using u by (auto elim!: animate_controls)
  have ru: "rotation (heap u ! c) = turned (Suc n)"
    using u Suc.prems(1,2,4) by (rule animate_turns)
  from Suc.IH [OF cu lu nu ru] u show ?case
    by simp
qed

lemma apply_input_pixelRatio:
  assumes wf: "well_formed s" and step: "apply_input i s = Inr t"
  shows "pixelRatio (renderer t) = pixelRatio (renderer s)"
proof (cases i)
  case Frame
  with step run_animation_frame_cases [OF wf]
  have "t = s \<or> animate (s\<lparr>pending := []\<rparr>) = Inr t"
    by auto
  then show ?thesis
    by (auto dest: animate_fields(4))
next
  case (Resize w)
  with step wf show ?thesis
    by (auto simp: fire_resize_well_formed onWindowResize_eq)
next
  case (Wheel k)
  with step show ?thesis
    by (auto simp: wheel_def split: option.splits if_splits)
next
  case Dispose
  from wf obtain c where "controls s = Some c"
    by (rule well_formed_controls)
  from dispose_fields(8) [OF this] Dispose step show ?thesis
    by simp
qed

lemma run_pixelRatio:
  "well_formed s \<Longrightarrow> run ins s = Inr t \<Longrightarrow> pixelRatio (renderer t) = pixelRatio (renderer s)"
proof (induction ins arbitrary: s)
  case Nil
  then show ?case by simp
next
  case (Cons i ins)
  from Cons.prems obtain u where u: "apply_input i s = Inr u" and r: "run ins u = Inr t"
    by (auto split: sum.splits)
  from apply_input_well_formed [OF Cons.prems(1) u] have "well_formed u" .
  from Cons.IH [OF this r] apply_input_pixelRatio [OF Cons.prems(1) u] show ?case
    by simp
qed

lemma quiet_step:
  assumes wf: "well_formed s" and q: "pending s = []" and step: "apply_input i s = Inr t"
  shows "pending t = [] \<and> animate_count t = animate_count s"
proof (cases i)
  case Frame
  with step q run_animation_frame_cases [OF wf] show ?thesis
    by auto
next
  case (Resize w)
  with step wf q show ?thesis
    by (auto simp: fire_resize_well_formed onWindowResize_eq animate_count_def)
next
  case (Wheel k)
  with step q show ?thesis
    by (auto simp: wheel_def animate_count_def split: option.splits if_splits)
next
  case Dispose
  from wf obtain c where c: "controls s = Some c"
    by (rule well_formed_controls)
  from Dispose step have d: "dispose s = Inr t"
    by simp
  from dispose_fields(5,7) [OF c d] q show ?thesis
    by (auto simp: animate_count_def split: option.splits)
qed

lemma quiet_run:
  "well_formed s \<Longrightarrow> pending s = [] \<Longrightarrow> run ins s = Inr t
     \<Longrightarrow> pending t = [] \<and> animate_count t = animate_count s"
proof (induction ins arbitrary: s)
  case Nil
  then show ?case by simp
next
  case (Cons i ins)
  from Cons.prems obtain u where u: "apply_input i s = Inr u" and r: "run ins u = Inr t"
    by (auto split: sum.splits)
  from apply_input_well_formed [OF Cons.prems(1) u] have wu: "well_formed u" .
  from quiet_step [OF Cons.prems(1,2) u] have qu: "pending u = []"
    and cu: "animate_count u = animate_count s"
    by simp_all
  from Cons.IH [OF wu qu r] cu show ?case
    by simp
qed

lemma animate_count_animate:
  assumes "animate s = Inr t"
  shows "animate_count t = Suc (animate_count s)"
  by (simp add: animate_count_def animate_fields(10) [OF assms])

lemma apply_input_rotation:
  assumes wf: "well_formed s" and step: "apply_input i s = Inr t"
    and rot: "rotation (heap s ! 2) = turned (animate_count s)"
  shows "rotation (heap t ! 2) = turned (animate_count t)"
proof (cases i)
  case Frame
  with step run_animation_frame_cases [OF wf]
  consider "t = s" | "animate (s\<lparr>pending := []\<rparr>) = Inr t"
    by auto
  then show ?thesis
  proof cases
    case 1
    with rot show ?thesis by simp
  next
    case 2
    from wf have c: "cube (s\<lparr>pending := []\<rparr>) = Some 2"
      and l: "2 < length (heap (s\<lparr>pending := []\<rparr>))"
      by (simp_all add: well_formed_def)
    have r: "rotation (heap (s\<lparr>pending := []\<rparr>) ! 2) = turned (animate_count s)"
      using rot by simp
    have "animate_count t = Suc (animate_count s)"
      using animate_count_animate [OF 2] by (simp add: animate_count_def)
    with animate_turns [OF 2 c l r] show ?thesis
      by simp
  qed
next
  case (Resize w)
  with step wf rot show ?thesis
    by (auto simp: fire_resize_well_formed onWindowResize_eq animate_count_def)
next
  case (Wheel k)
  with step rot show ?thesis
    by (auto simp: wheel_def animate_count_def split: option.splits if_splits)
next
  case Dispose
  from wf obtain c where c: "controls s = Some c"
    by (rule well_formed_controls)
  from Dispose step have "dispose s = Inr t"
    by simp
  with rot show ?thesis
    unfolding dispose_eq [OF c]
    by (auto simp: animate_count_def split: option.splits)
qed

lemma run_rotation:
  "well_formed s \<Longrightarrow> rotation (heap s ! 2) = turned (animate_count s) \<Longrightarrow>
   run ins s = Inr t \<Longrightarrow> rotation (heap t ! 2) = turned (animate_count t)"
proof (induction ins arbitrary: s)
  case Nil
  then show ?case by simp
next
  case (Cons i ins)
  from Cons.prems obtain u where u: "apply_input i s = Inr u" and r: "run ins u = Inr t"
    by (auto split: sum.splits)
  from apply_input_well_formed [OF Cons.prems(1) u] have wu: "well_formed u" .
  from apply_input_rotation [OF Cons.prems(1) u Cons.prems(2)] Cons.IH [OF wu _ r]
  show ?case
    by simp
qed

lemma demo_rotation_after:
  "cube_rotation_after k demo_state = Inr (turned (1 + k))"
proof -
  have "cube demo_state = Some 2" "2 < length (heap demo_state)"
    "controls demo_state \<noteq> None" "rotation (heap demo_state ! 2) = turned 1"
    by (simp_all add: demo_state_eq)
  from animate_n_rotation [OF this, of k] show ?thesis
    by (auto simp: cube_rotation_after_def cube_rotation_def)
qed

section \<open>The claims\<close>

text \<open>
  C1, as amended. One call of \<open>animate\<close> does its work in this order: first it
  requests the next animation frame and stores the handle in \<open>animationFrameId\<close>; then
  it notifies the overlay of the start of the frame, turns the cube, updates the orbit
  controls, renders, and notifies the overlay of the end of the frame. The request is
  the first effect, not the last.
\<close>

theorem animate_order:
  assumes "animate s = Inr s'"
  shows "events_since s s' =
           [RequestAnimationFrame (animationFrameId s'), StatsBegin, CubeRotate,
            ControlsUpdate, RendererRender, StatsEnd]
         \<and> animationFrameId s' = Suc (raf_counter s)
         \<and> pending s' = pending s @ [animationFrameId s']"
  using animate_fields(7,9,10) [OF assms] by (simp add: events_since_def)

theorem animate_order_witness:
  "case animate demo_state of
     Inl e \<Rightarrow> False
   | Inr s' \<Rightarrow>
       events_since demo_state s' =
         [RequestAnimationFrame 2, StatsBegin, CubeRotate, ControlsUpdate, RendererRender,
          StatsEnd]
       \<and> animationFrameId s' = 2 \<and> pending s' = [1, 2]"
proof -
  have "\<exists>s'. animate demo_state = Inr s'"
    by (rule animate_total [of _ 2]) (simp_all add: demo_state_eq)
  then obtain s' where s': "animate demo_state = Inr s'"
    by blast
  from animate_order [OF s'] s' show ?thesis
    by (simp add: demo_schedule)
qed

theorem animate_order_counterexample:
  "step_events demo_state =
     Inr [RequestAnimationFrame 2, StatsBegin, CubeRotate, ControlsUpdate, RendererRender,
          StatsEnd]
   \<and> step_events demo_state \<noteq>
     Inr [StatsBegin, CubeRotate, ControlsUpdate, RendererRender, StatsEnd,
          RequestAnimationFrame 2]"
proof -
  have "\<exists>s'. animate demo_state = Inr s'"
    by (rule animate_total [of _ 2]) (simp_all add: demo_state_eq)
  then obtain s' where s': "animate demo_state = Inr s'"
    by blast
  from animate_fields(10) [OF s'] s' show ?thesis
    by (simp add: step_events_def events_since_def demo_schedule)
qed

text \<open>
  C2, as amended. The constructor itself makes the first call of \<open>animate\<close>, so the
  state it leaves has one call behind it. In every state that the constructor and any
  sequence of inputs lead to, the rotation of the cube about x and about y equals,
  and so equals modulo a full turn, the sum of as many terms 0.01 as there have been
  calls of \<open>animate\<close>, added one after the other as doubles; about z it is 0. \<open>k\<close> more
  calls from there add \<open>k\<close> more terms, whatever time has passed. From the state the
  constructor leaves that is the sum of \<open>k + 1\<close> terms. The sum of doubles is not the
  product: six terms make \<open>0.060000000000000005\<close>.
\<close>

theorem rotation_counts_steps:
  assumes "construct w p n = Inr s0" and "run ins s0 = Inr s"
  shows "animate_count s0 = 1
       \<and> cube_rotation s = Some (turned (animate_count s))
       \<and> cube_rotation_after k s = Inr (turned (animate_count s + k))
       \<and> (\<exists>r. cube_rotation_after k s = Inr r
              \<and> same_angle (dval (rot_x r)) (dval (repeated_sum (animate_count s + k)))
              \<and> same_angle (dval (rot_y r)) (dval (repeated_sum (animate_count s + k))))"
proof -
  note s0 = construct_state [OF assms(1)]
  have c0: "animate_count s0 = 1"
    by (simp add: s0 animate_count_def)
  have wf0: "well_formed s0"
    using assms(1) by (rule construct_well_formed)
  have r0: "rotation (heap s0 ! 2) = turned (animate_count s0)"
    unfolding c0 by (simp add: s0)
  have wf: "well_formed s"
    using assms by (rule reachable_well_formed)
  then have cs: "cube s = Some 2" and ls: "2 < length (heap s)"
    by (simp_all add: well_formed_def)
  from wf have ns: "controls s \<noteq> None"
    by (auto elim: well_formed_controls)
  have rs: "rotation (heap s ! 2) = turned (animate_count s)"
    using wf0 r0 assms(2) by (rule run_rotation)
  from animate_n_rotation [OF cs ls ns rs, of k]
  have after: "cube_rotation_after k s = Inr (turned (animate_count s + k))"
    by (auto simp: cube_rotation_after_def cube_rotation_def)
  have "same_angle (dval (rot_x (turned (animate_count s + k))))
          (dval (repeated_sum (animate_count s + k)))"
    and "same_angle (dval (rot_y (turned (animate_count s + k))))
          (dval (repeated_sum (animate_count s + k)))"
    by (simp_all add: turned_def same_angle_refl)
  with c0 cs rs after show ?thesis
    by (simp add: cube_rotation_def)
qed

theorem rotation_counts_steps_witness:
  "construct demo_window demo_page 0 = Inr demo_state
   \<and> run [] demo_state = Inr demo_state
   \<and> animate_count demo_state = 1
   \<and> cube_rotation demo_state = Some (turned 1)
   \<and> cube_rotation_after 5 demo_state = Inr (turned 6)
   \<and> rot_x (turned 6) = Double 8646911284551353 (- 57)"
proof -
  have r: "run [] demo_state = Inr demo_state"
    by simp
  from rotation_counts_steps [OF construct_demo r, of 5] construct_demo r show ?thesis
    by (simp add: turned_def repeated_sum_6)
qed

theorem rotation_counts_steps_counterexample:
  "cube_rotation_after 0 demo_state = Inr (turned 1)
   \<and> rot_x (turned 1) = hundredth \<and> rot_y (turned 1) = hundredth
   \<and> \<not> same_angle (dval hundredth) (real 0 * 0.01)
   \<and> cube_rotation_after 5 demo_state = Inr (turned 6)
   \<and> rot_x (turned 6) = Double 8646911284551353 (- 57)
   \<and> rot_y (turned 6) = Double 8646911284551353 (- 57)
   \<and> \<not> same_angle (dval (Double 8646911284551353 (- 57))) (real 5 * 0.01)
   \<and> \<not> same_angle (dval (Double 8646911284551353 (- 57))) (real 6 * 0.01)"
proof -
  have "\<not> same_angle (dval hundredth) (real 0 * 0.01)"
    by (rule not_same_angle) (simp_all add: hundredth_def)
  moreover have "\<not> same_angle (dval (Double 8646911284551353 (- 57))) (real 5 * 0.01)"
    by (rule not_same_angle) simp_all
  moreover have "\<not> same_angle (dval (Double 8646911284551353 (- 57))) (real 6 * 0.01)"
    by (rule not_same_angle) simp_all
  moreover have "rot_x (turned 1) = hundredth" "rot_y (turned 1) = hundredth"
    by (simp_all add: turned_def dadd_dzero_hundredth)
  ultimately show ?thesis
    using demo_rotation_after [of 0] demo_rotation_after [of 5]
    by (simp add: turned_def repeated_sum_6)
qed

text \<open>
  C3. In every state that the constructor and any sequence of inputs lead to, and for
  a window of positive width W and height H, after \<open>onWindowResize\<close> the aspect ratio
  of the camera, also the one committed to the projection, is W / H, the rendering
  surface is set to W by H, and its output dimensions are W by H scaled by the pixel
  ratio the surface holds. The handler leaves that ratio as it is: it is the device
  pixel ratio the constructor gave the surface. The rendering surface is the one
  modelled from the spec.
\<close>

theorem resize_sets_aspect_and_size:
  assumes "construct w0 p n = Inr s0" and "run ins s0 = Inr s"
    and "0 < innerWidth w" and "0 < innerHeight w"
  shows "aspect (camera (onWindowResize w s)) = innerWidth w / innerHeight w
       \<and> fst (snd (projection (camera (onWindowResize w s)))) = innerWidth w / innerHeight w
       \<and> r_width (renderer (onWindowResize w s)) = innerWidth w
       \<and> r_height (renderer (onWindowResize w s)) = innerHeight w
       \<and> output_width (renderer (onWindowResize w s))
           = innerWidth w * pixelRatio (renderer (onWindowResize w s))
       \<and> output_height (renderer (onWindowResize w s))
           = innerHeight w * pixelRatio (renderer (onWindowResize w s))
       \<and> pixelRatio (renderer (onWindowResize w s)) = pixelRatio (renderer s)
       \<and> pixelRatio (renderer s) = devicePixelRatio w0"
proof -
  have "pixelRatio (renderer s) = pixelRatio (renderer s0)"
    using construct_well_formed [OF assms(1)] assms(2) by (rule run_pixelRatio)
  then have "pixelRatio (renderer s) = devicePixelRatio w0"
    by (simp add: construct_state [OF assms(1)])
  then show ?thesis
    by (simp add: onWindowResize_eq)
qed

theorem resize_sets_aspect_and_size_witness:
  "construct zoomed_window demo_page 0 \<noteq> Inl TypeError
   \<and> (\<exists>s0. construct zoomed_window demo_page 0 = Inr s0
         \<and> run [] s0 = Inr s0
         \<and> aspect (camera (onWindowResize
              \<lparr>innerWidth = 1024, innerHeight = 768, devicePixelRatio = 2\<rparr> s0)) = 4 / 3
         \<and> output_width (renderer (onWindowResize
              \<lparr>innerWidth = 1024, innerHeight = 768, devicePixelRatio = 2\<rparr> s0)) = 2048
         \<and> output_height (renderer (onWindowResize
              \<lparr>innerWidth = 1024, innerHeight = 768, devicePixelRatio = 2\<rparr> s0)) = 1536)"
proof -
  have "has_app demo_page"
    by (simp add: demo_page_def)
  from construct_eq [OF this, of zoomed_window 0]
  obtain s0 where s0: "construct zoomed_window demo_page 0 = Inr s0"
    by blast
  have r: "run [] s0 = Inr s0"
    by simp
  from resize_sets_aspect_and_size [OF s0 r,
      of "\<lparr>innerWidth = 1024, innerHeight = 768, devicePixelRatio = 2\<rparr>"] s0 r
  show ?thesis
    by (simp add: zoomed_window_def)
qed

text \<open>
  C4. In every state whose controls are assigned, \<open>dispose\<close> returns without a fault,
  and so does a second \<open>dispose\<close> right after it; the second call changes nothing in
  the state: it cancels the handle that is no longer queued, releases what is already
  released, finds the overlay detached and skips the removal. With a zero handle
  \<open>dispose\<close> skips the cancellation, and with the overlay detached it skips the
  removal and leaves the page as it is. The log of calls alone grows.
\<close>

theorem dispose_twice:
  assumes "controls s = Some c"
  shows "\<exists>d d'. dispose s = Inr d \<and> dispose d = Inr d'
           \<and> d'\<lparr>trace := trace d\<rparr> = d
           \<and> events_since d d' =
               (if animationFrameId s = 0 then []
                else [CancelAnimationFrame (animationFrameId s)])
               @ [ControlsDispose, RendererDispose]
           \<and> events_since s d =
               (if animationFrameId s = 0 then []
                else [CancelAnimationFrame (animationFrameId s)])
               @ [ControlsDispose, RendererDispose]
               @ (case parentNode (page s) StatsDom of
                    None \<Rightarrow> []
                  | Some par \<Rightarrow> [RemoveChild par StatsDom])
           \<and> pending d =
               (if animationFrameId s = 0 then pending s
                else removeAll (animationFrameId s) (pending s))
           \<and> page d =
               (case parentNode (page s) StatsDom of
                  None \<Rightarrow> page s
                | Some par \<Rightarrow> removeChild par StatsDom (page s))"
proof -
  from dispose_eq [OF assms] obtain d where d: "dispose s = Inr d"
    by blast
  note f = dispose_fields [OF assms d]
  have gone: "animationFrameId d = 0 \<or> animationFrameId d \<notin> set (pending d)"
    by (simp add: f)
  have again: "dispose d =
    Inr (d\<lparr>trace := trace d
             @ (if animationFrameId d = 0 then []
                else [CancelAnimationFrame (animationFrameId d)])
             @ [ControlsDispose, RendererDispose]\<rparr>)"
    using f(1) _ f(2) f(3) gone by (rule dispose_again) simp
  let ?d' = "d\<lparr>trace := trace d
             @ (if animationFrameId d = 0 then []
                else [CancelAnimationFrame (animationFrameId d)])
             @ [ControlsDispose, RendererDispose]\<rparr>"
  have "?d'\<lparr>trace := trace d\<rparr> = d"
    by simp
  moreover have "events_since d ?d' =
               (if animationFrameId s = 0 then []
                else [CancelAnimationFrame (animationFrameId s)])
               @ [ControlsDispose, RendererDispose]"
    by (simp add: events_since_def f(4))
  moreover have "events_since s d =
               (if animationFrameId s = 0 then []
                else [CancelAnimationFrame (animationFrameId s)])
               @ [ControlsDispose, RendererDispose]
               @ (case parentNode (page s) StatsDom of
                    None \<Rightarrow> []
                  | Some par \<Rightarrow> [RemoveChild par StatsDom])"
    by (simp add: events_since_def f(7))
  ultimately show ?thesis
    using d again f(5,6) by (intro exI [of _ d] exI [of _ ?d']) simp
qed

theorem dispose_twice_witness:
  "controls demo_state \<noteq> None
   \<and> (\<exists>d d'. dispose demo_state = Inr d \<and> dispose d = Inr d' \<and> d'\<lparr>trace := trace d\<rparr> = d
         \<and> events_since demo_state d =
             [CancelAnimationFrame 1, ControlsDispose, RendererDispose, RemoveChild Body StatsDom]
         \<and> events_since d d' = [CancelAnimationFrame 1, ControlsDispose, RendererDispose]
         \<and> pending d = []
         \<and> parentNode (page d) StatsDom = None)
   \<and> (\<exists>d d'. dispose (setupControls (fresh demo_window demo_page 0)) = Inr d
         \<and> dispose d = Inr d' \<and> d'\<lparr>trace := trace d\<rparr> = d
         \<and> events_since (setupControls (fresh demo_window demo_page 0)) d =
             [ControlsDispose, RendererDispose]
         \<and> events_since d d' = [ControlsDispose, RendererDispose]
         \<and> page d = demo_page)"
proof -
  have c1: "controls demo_state =
      Some \<lparr>enableDamping = True, dampingFactor = 0.05, minDistance = 2,
             maxDistance = Some 20, target = vec 0 0 0, zoom_scale = 1,
             listening = True\<rparr>"
    by (simp add: demo_state_eq)
  have c2: "controls (setupControls (fresh demo_window demo_page 0)) =
      Some \<lparr>enableDamping = True, dampingFactor = 0.05, minDistance = 2,
             maxDistance = Some 20, target = vec 0 0 0, zoom_scale = 1,
             listening = True\<rparr>"
    by (simp add: setupControls_def OrbitControls_def fresh_def)
  have p1: "parent_of (page demo_state) StatsDom = Some Body"
    "animationFrameId demo_state = 1" "pending demo_state = [1]"
    by (simp_all add: demo_state_eq)
  have p2: "parent_of demo_page StatsDom = None"
    "animationFrameId (setupControls (fresh demo_window demo_page 0)) = 0"
    "page (setupControls (fresh demo_window demo_page 0)) = demo_page"
    by (simp_all add: setupControls_def fresh_def demo_page_def)
  from dispose_twice [OF c1] have
    "\<exists>d d'. dispose demo_state = Inr d \<and> dispose d = Inr d' \<and> d'\<lparr>trace := trace d\<rparr> = d
         \<and> events_since demo_state d =
             [CancelAnimationFrame 1, ControlsDispose, RendererDispose, RemoveChild Body StatsDom]
         \<and> events_since d d' = [CancelAnimationFrame 1, ControlsDispose, RendererDispose]
         \<and> pending d = []
         \<and> parentNode (page d) StatsDom = None"
    by (auto simp: p1 removeChild_def parentNode_def)
  moreover from dispose_twice [OF c2] have
    "\<exists>d d'. dispose (setupControls (fresh demo_window demo_page 0)) = Inr d
         \<and> dispose d = Inr d' \<and> d'\<lparr>trace := trace d\<rparr> = d
         \<and> events_since (setupControls (fresh demo_window demo_page 0)) d =
             [ControlsDispose, RendererDispose]
         \<and> events_since d d' = [ControlsDispose, RendererDispose]
         \<and> page d = demo_page"
    by (auto simp: p2 parentNode_def)
  ultimately show ?thesis
    using c1 by simp
qed

text \<open>
  C5. On a page that has the element \<open>#app\<close> the constructor completes, and the scene
  then holds exactly four objects, no object twice: one ambient light, one directional
  light, one cube mesh, which is the object the field \<open>cube\<close> names, and one plane mesh.
\<close>

theorem scene_has_four_objects:
  assumes "has_app p"
  shows "\<exists>s. construct w p n = Inr s
           \<and> length (scene_objects s) = 4
           \<and> distinct (scene s)
           \<and> map kind (scene_objects s) =
               [AmbientLight 4210752 0.6, DirectionalLight 16777215 1,
                Mesh (BoxGeometry 1 1 1) (MeshLambertMaterial 65416),
                Mesh (PlaneGeometry 10 10) (MeshLambertMaterial 6710886)]
           \<and> length (filter is_ambient_light (scene_objects s)) = 1
           \<and> length (filter is_directional_light (scene_objects s)) = 1
           \<and> length (filter is_cube_mesh (scene_objects s)) = 1
           \<and> length (filter is_plane_mesh (scene_objects s)) = 1
           \<and> cube s = Some (scene s ! 2)"
  unfolding construct_eq [OF assms]
  by (simp add: scene_objects_def)

theorem scene_has_four_objects_witness:
  "has_app demo_page
   \<and> construct demo_window demo_page 0 = Inr demo_state
   \<and> length (scene_objects demo_state) = 4
   \<and> length (filter is_cube_mesh (scene_objects demo_state)) = 1"
proof -
  have h: "has_app demo_page"
    by (simp add: demo_page_def)
  from scene_has_four_objects [OF h, of demo_window 0] construct_demo h show ?thesis
    by auto
qed

text \<open>
  C6. On a page that has the element \<open>#app\<close> the constructor completes, and the camera
  then has field of view 75, near plane 0.1, far plane 1000, the aspect ratio
  \<open>innerWidth / innerHeight\<close> of the window, the projection committed for these four, and
  the position (2, 2, 5).
\<close>

theorem camera_after_construct:
  assumes "has_app p"
  shows "\<exists>s. construct w p n = Inr s
           \<and> fov (camera s) = 75 \<and> near (camera s) = 0.1 \<and> far (camera s) = 1000
           \<and> aspect (camera s) = innerWidth w / innerHeight w
           \<and> projection (camera s) = (75, innerWidth w / innerHeight w, 0.1, 1000)
           \<and> cam_position (camera s) = \<lparr>vx = 2, vy = 2, vz = 5\<rparr>"
  unfolding construct_eq [OF assms]
  by (simp add: vec_def)

theorem camera_after_construct_witness:
  "has_app demo_page
   \<and> construct demo_window demo_page 0 = Inr demo_state
   \<and> fov (camera demo_state) = 75 \<and> aspect (camera demo_state) = 800 / 600
   \<and> cam_position (camera demo_state) = \<lparr>vx = 2, vy = 2, vz = 5\<rparr>"
proof -
  have h: "has_app demo_page"
    by (simp add: demo_page_def)
  from camera_after_construct [OF h, of demo_window 0] construct_demo h show ?thesis
    by (auto simp: demo_window_def)
qed

text \<open>
  C7. In every state that the constructor and any sequence of display refreshes,
  resizes, wheel inputs and disposals lead to, at most one animation-frame handle is
  outstanding, and it is the one in \<open>animationFrameId\<close>, which is not zero. \<open>dispose\<close>
  there returns, cancels exactly that handle first, and leaves none outstanding; after
  it, whatever inputs follow, none is ever outstanding again and \<open>animate\<close> never runs
  again.
\<close>

theorem one_handle_and_dispose_stops_loop:
  assumes "construct w p n = Inr s0" and "run ins s0 = Inr s"
  shows "length (pending s) \<le> 1
       \<and> set (pending s) \<subseteq> {animationFrameId s}
       \<and> animationFrameId s \<noteq> 0
       \<and> (\<exists>d. dispose s = Inr d
              \<and> take 1 (events_since s d) = [CancelAnimationFrame (animationFrameId s)]
              \<and> pending d = []
              \<and> (\<forall>ins'. \<exists>t. run ins' d = Inr t \<and> pending t = []
                              \<and> animate_count t = animate_count d))"
proof -
  have wf: "well_formed s"
    using assms by (rule reachable_well_formed)
  then obtain c where c: "controls s = Some c"
    by (rule well_formed_controls)
  from wf have sched: "pending s = [] \<or> pending s = [animationFrameId s]"
    and nz: "animationFrameId s \<noteq> 0"
    by (simp_all add: well_formed_def)
  from dispose_eq [OF c] obtain d where d: "dispose s = Inr d"
    by blast
  have wd: "well_formed d"
    using wf d apply_input_well_formed [of s Dispose d] by simp
  from dispose_fields(5,7) [OF c d] sched nz
  have pd: "pending d = []"
    and ev: "take 1 (events_since s d) = [CancelAnimationFrame (animationFrameId s)]"
    by (auto simp: events_since_def)
  have "\<exists>t. run ins' d = Inr t \<and> pending t = [] \<and> animate_count t = animate_count d" for ins'
  proof -
    from run_total [OF wd, of ins'] obtain t where t: "run ins' d = Inr t"
      by blast
    from quiet_run [OF wd pd t] t show ?thesis
      by simp
  qed
  with sched nz d pd ev show ?thesis
    by auto
qed

theorem one_handle_and_dispose_stops_loop_witness:
  "construct demo_window demo_page 0 = Inr demo_state
   \<and> (\<exists>s. run [Frame, Wheel 2, Frame, Resize zoomed_window, Frame] demo_state = Inr s
        \<and> length (pending s) \<le> 1 \<and> set (pending s) \<subseteq> {animationFrameId s}
        \<and> (\<exists>d. dispose s = Inr d \<and> pending d = []
              \<and> (\<exists>t. run [Frame, Frame, Dispose, Frame] d = Inr t \<and> pending t = []
                       \<and> animate_count t = animate_count d)))"
proof -
  from run_total [OF demo_well_formed, of "[Frame, Wheel 2, Frame, Resize zoomed_window, Frame]"]
  obtain s where s: "run [Frame, Wheel 2, Frame, Resize zoomed_window, Frame] demo_state = Inr s"
    by blast
  from one_handle_and_dispose_stops_loop [OF construct_demo s]
  obtain d where "length (pending s) \<le> 1" and "set (pending s) \<subseteq> {animationFrameId s}"
    and "dispose s = Inr d" and "pending d = []"
    and after: "\<forall>ins'. \<exists>t. run ins' d = Inr t \<and> pending t = []
                              \<and> animate_count t = animate_count d"
    by blast
  moreover from after
  have "\<exists>t. run [Frame, Frame, Dispose, Frame] d = Inr t \<and> pending t = []
                       \<and> animate_count t = animate_count d"
    by (rule spec)
  ultimately show ?thesis
    using s construct_demo by blast
qed

text \<open>
  C8. In every state that the constructor and any sequence of inputs lead to, the
  controls carry the bounds 2 and 20, and the next call of \<open>animate\<close> leaves the camera
  at the distance the zoom input asked for, clamped to the nearest bound: 2 when it
  asked for less than 2, 20 when it asked for more than 20. The update step itself is
  the one modelled from the spec.
\<close>

theorem zoom_distance_clamped:
  assumes "construct w p n = Inr s0" and "run ins s0 = Inr s"
  shows "\<exists>c s' c'. controls s = Some c \<and> minDistance c = 2 \<and> maxDistance c = Some 20
           \<and> animate s = Inr s' \<and> controls s' = Some c'
           \<and> minDistance c' = 2 \<and> maxDistance c' = Some 20
           \<and> camera_distance c' (camera s') =
               (if camera_distance c (camera s) * zoom_scale c < 2 then 2
                else if 20 < camera_distance c (camera s) * zoom_scale c then 20
                else camera_distance c (camera s) * zoom_scale c)"
proof -
  have wf: "well_formed s"
    using assms by (rule reachable_well_formed)
  then obtain c where c: "controls s = Some c" and cfg: "minDistance c = 2"
    "maxDistance c = Some 20" "2 \<le> camera_distance c (camera s)"
    by (rule well_formed_controls)
  from wf have "cube s = Some 2"
    by (simp add: well_formed_def)
  from animate_total [OF this c] obtain s' where a: "animate s = Inr s'"
    by blast
  from a c have ct: "controls s' = Some (fst (orbit_update c (camera s)))"
    and cam: "camera s' = snd (orbit_update c (camera s))"
    by (auto elim!: animate_controls)
  from orbit_update_in_range(3) [OF cfg] clampDistance_range [OF cfg(1,2)]
  have "camera_distance (fst (orbit_update c (camera s))) (snd (orbit_update c (camera s))) =
               (if camera_distance c (camera s) * zoom_scale c < 2 then 2
                else if 20 < camera_distance c (camera s) * zoom_scale c then 20
                else camera_distance c (camera s) * zoom_scale c)"
    by simp
  with c a ct cam cfg(1,2) show ?thesis
    by (simp add: orbit_update_fst)
qed

theorem zoom_distance_clamped_witness:
  "construct demo_window demo_page 0 = Inr demo_state
   \<and> run [Wheel 10] demo_state = Inr (wheel 10 demo_state)
   \<and> (\<exists>s' c'. animate (wheel 10 demo_state) = Inr s' \<and> controls s' = Some c'
         \<and> camera_distance c' (camera s') = 20)
   \<and> run [Wheel (1 / 10)] demo_state = Inr (wheel (1 / 10) demo_state)
   \<and> (\<exists>s' c'. animate (wheel (1 / 10) demo_state) = Inr s' \<and> controls s' = Some c'
         \<and> camera_distance c' (camera s') = 2)"
proof -
  have r: "run [Wheel k] demo_state = Inr (wheel k demo_state)" for k
    by simp
  have w: "controls (wheel k demo_state) =
      Some \<lparr>enableDamping = True, dampingFactor = 0.05, minDistance = 2,
             maxDistance = Some 20, target = vec 0 0 0, zoom_scale = k,
             listening = True\<rparr>" for k
    by (simp add: wheel_def demo_state_eq)
  have cam: "camera (wheel k demo_state) = camera demo_state" for k
    by (simp add: wheel_def demo_state_eq)
  have far: "20 < sqrt 33 * 10"
    using sqrt33_gt by simp
  have close: "sqrt 33 * (1 / 10) < 2"
    using sqrt33_lt by simp
  from zoom_distance_clamped [OF construct_demo r [of 10]] far
  have "\<exists>s' c'. animate (wheel 10 demo_state) = Inr s' \<and> controls s' = Some c'
         \<and> camera_distance c' (camera s') = 20"
    by (auto simp: w cam demo_distance)
  moreover from zoom_distance_clamped [OF construct_demo r [of "1 / 10"]] close
  have "\<exists>s' c'. animate (wheel (1 / 10) demo_state) = Inr s' \<and> controls s' = Some c'
         \<and> camera_distance c' (camera s') = 2"
    by (auto simp: w cam demo_distance)
  ultimately show ?thesis
    using construct_demo r by simp
qed

text \<open>
  C9. In every state \<open>onWindowResize\<close> changes the aspect ratio of the camera, the
  projection committed for it, and the size of the renderer with its drawing buffer,
  and nothing else: the position of the camera, the cube and its rotation, the scene
  and its objects, and the orbit controls are as they were.
\<close>

theorem resize_touches_only_aspect_and_size:
  "onWindowResize w s =
     s\<lparr>camera := (camera s)\<lparr>aspect := innerWidth w / innerHeight w,
                              projection := (fov (camera s), innerWidth w / innerHeight w,
                                             near (camera s), far (camera s))\<rparr>,
       renderer := (renderer s)\<lparr>r_width := innerWidth w, r_height := innerHeight w,
                                  output_width := innerWidth w * pixelRatio (renderer s),
                                  output_height := innerHeight w * pixelRatio (renderer s)\<rparr>\<rparr>
   \<and> cam_position (camera (onWindowResize w s)) = cam_position (camera s)
   \<and> cube (onWindowResize w s) = cube s
   \<and> cube_rotation (onWindowResize w s) = cube_rotation s
   \<and> scene (onWindowResize w s) = scene s
   \<and> heap (onWindowResize w s) = heap s
   \<and> scene_objects (onWindowResize w s) = scene_objects s
   \<and> controls (onWindowResize w s) = controls s"
  by (simp add: onWindowResize_eq cube_rotation_def scene_objects_def)

text \<open>
  C10. In every state that the constructor and any sequence of inputs lead to, the
  canvas of the renderer sits under \<open>#app\<close>; \<open>dispose\<close> there returns and leaves the
  canvas under \<open>#app\<close>, and the element of the overlay detached.
\<close>

theorem dispose_keeps_canvas:
  assumes "construct w p n = Inr s0" and "run ins s0 = Inr s"
  shows "parentNode (page s) RendererDomElement = Some App
       \<and> (\<exists>d. dispose s = Inr d
              \<and> parentNode (page d) RendererDomElement = Some App
              \<and> parentNode (page d) StatsDom = None
              \<and> has_app (page d) = has_app (page s))"
proof -
  have wf: "well_formed s"
    using assms by (rule reachable_well_formed)
  then obtain c where c: "controls s = Some c"
    by (rule well_formed_controls)
  from wf have canvas: "parentNode (page s) RendererDomElement = Some App"
    by (simp add: well_formed_def)
  from dispose_eq [OF c] obtain d where d: "dispose s = Inr d"
    by blast
  from dispose_fields(3,6) [OF c d] canvas
  have "parentNode (page d) RendererDomElement = Some App"
    and "parentNode (page d) StatsDom = None"
    and "has_app (page d) = has_app (page s)"
    by (auto simp: parentNode_def removeChild_def split: option.splits)
  with canvas d show ?thesis
    by simp
qed

theorem dispose_keeps_canvas_witness:
  "construct demo_window demo_page 0 = Inr demo_state
   \<and> run [] demo_state = Inr demo_state
   \<and> parentNode (page demo_state) StatsDom = Some Body
   \<and> (\<exists>d. dispose demo_state = Inr d
          \<and> parentNode (page d) RendererDomElement = Some App
          \<and> parentNode (page d) StatsDom = None)"
proof -
  have r: "run [] demo_state = Inr demo_state"
    by simp
  have "parentNode (page demo_state) StatsDom = Some Body"
    by (simp add: demo_state_eq parentNode_def)
  with dispose_keeps_canvas [OF construct_demo r] construct_demo r show ?thesis
    by auto
qed

end
